theory Spec2Isabelle
  imports Main "HOL-Library.Word" "HOL-Library.Sublist"
begin

section \<open>JavaScript strings\<close>

text \<open>
  A JavaScript string is a sequence of 16-bit UTF-16 code units. \<open>js\<close> embeds an ASCII
  literal; code units beyond ASCII are written as numbers.
\<close>

type_synonym jsstring = "16 word list"

definition js :: "string \<Rightarrow> jsstring" where
  "js s = map (\<lambda>c. of_nat (of_char c)) s"

text \<open>
  \<open>String.prototype.trim\<close> removes the WhiteSpace and LineTerminator code points of
  ECMAScript from both ends: TAB, LF, VT, FF, CR, SP, NBSP, U+1680, U+2000..U+200A, U+2028,
  U+2029, U+202F, U+205F, U+3000 and U+FEFF.
\<close>

definition isWhiteSpace :: "16 word \<Rightarrow> bool" where
  "isWhiteSpace c \<longleftrightarrow>
     c \<in> {0x0009, 0x000A, 0x000B, 0x000C, 0x000D, 0x0020, 0x00A0, 0x1680,
          0x2028, 0x2029, 0x202F, 0x205F, 0x3000, 0xFEFF}
     \<or> (0x2000 \<le> c \<and> c \<le> 0x200A)"

definition trim :: "jsstring \<Rightarrow> jsstring" where
  "trim s = rev (dropWhile isWhiteSpace (rev (dropWhile isWhiteSpace s)))"

section \<open>Data of \<open>App.js\<close>\<close>

datatype sender = User | Bot

record wine =
  name :: jsstring
  region :: jsstring
  grape :: jsstring
  points :: int
  description :: jsstring
  price :: jsstring

text \<open>A message object; \<open>wines\<close> is \<open>None\<close> where the object has no such property.\<close>

record message =
  sender :: sender
  "text" :: jsstring
  wines :: "wine list option"

datatype tab = Chat | Profile | Cellar

text \<open>
  A pending \<open>setTimeout\<close> callback of \<open>handleSend\<close>: the time at which it is due and
  the array \<open>newMessages\<close> its closure holds.
\<close>

record timer =
  due :: nat
  captured :: "message list"

text \<open>
  The state of the \<open>App\<close> component: its three \<open>useState\<close> cells, the pending timers
  in the order they were registered, and the time in milliseconds.
\<close>

record app =
  activeTab :: tab
  inputValue :: jsstring
  messages :: "message list"
  timers :: "timer list"
  clock :: nat

definition seedMessages :: "message list" where
  "seedMessages =
    [\<lparr>sender = Bot,
      text = js ''Guten Abend! Ich bin Ihr pers'' @ [0x00F6] @
             js ''nlicher Sommelier. Wie darf ich Ihnen heute behilflich sein?'',
      wines = None\<rparr>,
     \<lparr>sender = User,
      text = js ''Ich suche einen Rotwein zu einem Rinderfilet.'',
      wines = None\<rparr>,
     \<lparr>sender = Bot,
      text = js ''Eine ausgezeichnete Wahl! Zu einem Rinderfilet empfehle ich Ihnen kr'' @
             [0x00E4] @
             js ''ftige Rotweine mit guter Tanninstruktur. Hier sind meine Empfehlungen:'',
      wines = Some
       [\<lparr>name = js ''Barolo DOCG 2018'',
         region = js ''Piemont, Italien'',
         grape = js ''Nebbiolo'',
         points = 94,
         description =
           js ''Die Struktur dieses Rotweins harmoniert ausgezeichnet mit der Intensit'' @
           [0x00E4] @ js ''t des Fleisches. Die samtigen Tannine umschmeicheln die '' @
           js ''reichhaltigen Aromen des Gerichts.'',
         price = [0x20AC] @ js ''78''\<rparr>,
        \<lparr>name = js ''Ch'' @ [0x00E2] @ js ''teauneuf-du-Pape 2019'',
         region = js ''Rh'' @ [0x00F4] @ js ''ne, Frankreich'',
         grape = js ''Grenache, Syrah'',
         points = 92,
         description =
           js ''Die F'' @ [0x00FC] @
           js ''lle des Weins steht im perfekten Gleichgewicht mit der Aromatik Ihrer '' @
           js ''Speise. Dabei stehen Wein und Speise in perfekter Balance zueinander.'',
         price = [0x20AC] @ js ''52''\<rparr>]\<rparr>]"

text \<open>The first render: the initial values given to \<open>useState\<close>, no timer pending.\<close>

definition initial :: app where
  "initial = \<lparr>activeTab = Chat, inputValue = [], messages = seedMessages,
              timers = [], clock = 0\<rparr>"

section \<open>State transitions\<close>

definition setActiveTab :: "tab \<Rightarrow> app \<Rightarrow> app" where
  "setActiveTab t st = st\<lparr>activeTab := t\<rparr>"

definition setInputValue :: "jsstring \<Rightarrow> app \<Rightarrow> app" where
  "setInputValue v st = st\<lparr>inputValue := v\<rparr>"

definition userMessage :: "jsstring \<Rightarrow> message" where
  "userMessage v = \<lparr>sender = User, text = v, wines = None\<rparr>"

definition botReply :: message where
  "botReply =
    \<lparr>sender = Bot,
     text = js ''Vielen Dank f'' @ [0x00FC] @
            js ''r Ihre Anfrage. Ich analysiere gerade die besten Optionen f'' @
            [0x00FC] @ js ''r Sie...'',
     wines = None\<rparr>"

text \<open>
  The callback given to \<open>setTimeout\<close>: it sets \<open>messages\<close> to the array
  \<open>newMessages\<close> of its closure followed by the reply, whatever \<open>messages\<close> holds
  when it runs.
\<close>

definition timerCallback :: "message list \<Rightarrow> app \<Rightarrow> app" where
  "timerCallback newMessages st = st\<lparr>messages := newMessages @ [botReply]\<rparr>"

text \<open>
  \<open>handleSend\<close> reads \<open>inputValue\<close> and \<open>messages\<close> of the current render. An empty
  string is the only falsy string, so \<open>!inputValue.trim()\<close> holds exactly when the
  trimmed input is empty.
\<close>

definition handleSend :: "app \<Rightarrow> app" where
  "handleSend st =
    (if trim (inputValue st) = [] then st
     else
       let newMessages = messages st @ [userMessage (inputValue st)]
       in st\<lparr>messages := newMessages,
              inputValue := [],
              timers := timers st @ [\<lparr>due = clock st + 1000, captured = newMessages\<rparr>]\<rparr>)"

text \<open>\<open>handleKeyPress\<close> of \<open>ChatView\<close>, with \<open>onSend = handleSend\<close>.\<close>

definition handleKeyPress :: "jsstring \<Rightarrow> app \<Rightarrow> app" where
  "handleKeyPress key st =
    (if key = js ''Enter'' \<and> trim (inputValue st) \<noteq> [] then handleSend st else st)"

text \<open>
  Time passes by \<open>d\<close> milliseconds: the timers that are due by then run, earliest first
  and in registration order among equals, each callback to completion.
\<close>

definition elapse :: "nat \<Rightarrow> app \<Rightarrow> app" where
  "elapse d st =
    (let t = clock st + d;
         ready = sort_key due (filter (\<lambda>tm. due tm \<le> t) (timers st));
         waiting = filter (\<lambda>tm. \<not> due tm \<le> t) (timers st)
     in foldl (\<lambda>s tm. timerCallback (captured tm) s)
          (st\<lparr>timers := waiting, clock := t\<rparr>) ready)"

text \<open>
  What can happen to a session: a click on a tab button, a change of the input field, a
  click on the send button, a key pressed in the input field, and the passing of time.
\<close>

datatype event =
  ClickTab tab
  | Change jsstring
  | ClickSend
  | KeyPress jsstring
  | Elapse nat

fun step :: "app \<Rightarrow> event \<Rightarrow> app" where
  "step st (ClickTab t) = setActiveTab t st"
| "step st (Change v) = setInputValue v st"
| "step st ClickSend = handleSend st"
| "step st (KeyPress key) = handleKeyPress key st"
| "step st (Elapse d) = elapse d st"

definition run :: "event list \<Rightarrow> app \<Rightarrow> app" where
  "run evs st = foldl step st evs"

text \<open>
  The input field and the send button are part of \<open>ChatView\<close>, which is rendered only
  while the chat tab is active; the tab buttons are always there.
\<close>

fun enabled :: "app \<Rightarrow> event \<Rightarrow> bool" where
  "enabled st (ClickTab t) = True"
| "enabled st (Elapse d) = True"
| "enabled st ev = (activeTab st = Chat)"

fun feasible :: "app \<Rightarrow> event list \<Rightarrow> bool" where
  "feasible st [] = True"
| "feasible st (ev # evs) = (enabled st ev \<and> feasible (step st ev) evs)"

text \<open>
  An event submits the draft when it reaches the body of \<open>handleSend\<close> past its guard:
  a click on the send button or the Enter key, with an input that is not empty once
  trimmed.
\<close>

definition submits :: "app \<Rightarrow> event \<Rightarrow> bool" where
  "submits st ev \<longleftrightarrow>
     (ev = ClickSend \<or> ev = KeyPress (js ''Enter'')) \<and> trim (inputValue st) \<noteq> []"

fun noSend :: "app \<Rightarrow> event list \<Rightarrow> bool" where
  "noSend st [] = True"
| "noSend st (ev # evs) = (\<not> submits st ev \<and> noSend (step st ev) evs)"

text \<open>The time that passes during a list of events.\<close>

fun elapsed :: "event list \<Rightarrow> nat" where
  "elapsed [] = 0"
| "elapsed (Elapse d # evs) = d + elapsed evs"
| "elapsed (ev # evs) = elapsed evs"

section \<open>The rendered tree\<close>

text \<open>
  What the components return: elements with their tag, their string attributes and their
  children, strings and numbers. A component that returns a fragment returns a list of
  nodes, and an expression that is \<open>false\<close> or \<open>undefined\<close> contributes no node.
  Event handlers, \<open>key\<close> and \<open>ref\<close> are not part of the tree; the handlers are the
  transitions above. The effect of \<open>ChatView\<close> that scrolls the chat container to its
  end reads and writes the document only, none of the three state cells.
\<close>

datatype node =
  Element string "(string \<times> jsstring) list" "node list"
  | Text jsstring
  | Number int

abbreviation cls :: "string \<Rightarrow> string \<times> jsstring" where
  "cls c \<equiv> (''className'', js c)"

text \<open>A number inside a template literal, for the integers the static data holds.\<close>

function digits :: "nat \<Rightarrow> jsstring" where
  "digits n =
    (if n < 10 then [of_nat (48 + n)] else digits (n div 10) @ [of_nat (48 + n mod 10)])"
  by pat_completeness auto
termination
  by (relation "measure id") auto

definition numberToString :: "int \<Rightarrow> jsstring" where
  "numberToString n = (if n < 0 then js ''-'' @ digits (nat (- n)) else digits (nat n))"

definition svgIcon :: "string \<Rightarrow> node" where
  "svgIcon d =
    Element ''svg'' [(''viewBox'', js ''0 0 24 24''),
                     (''xmlns'', js ''http://www.w3.org/2000/svg'')]
      [Element ''path'' [(''d'', js d)] []]"

definition WineGlassIcon :: node where
  "WineGlassIcon = svgIcon
    (''M6 2h12v7c0 3.31-2.69 6-6 6s-6-2.69-6-6V2zm6 11c2.21 0 4-1.79 4-4V4H8v5c0 2.21 '' @
     ''1.79 4 4 4zm-1 3.93V20H8v2h8v-2h-3v-3.07c3.39-.49 6-3.39 6-6.93V0H5v9c0 3.54 '' @
     ''2.61 6.44 6 6.93z'')"

definition ArrowIcon :: node where
  "ArrowIcon = svgIcon ''M2.01 21L23 12 2.01 3 2 10l15 2-15 2z''"

definition PlusIcon :: node where
  "PlusIcon = svgIcon ''M19 13h-6v6h-2v-6H5v-2h6V5h2v6h6v2z''"

definition WineCard :: "wine \<Rightarrow> node" where
  "WineCard w =
    Element ''div'' [cls ''wine-card'']
      [Element ''div'' [cls ''wine-card-header'']
         [Element ''span'' [cls ''wine-name''] [Text (name w)],
          Element ''span'' [cls ''wine-badge''] [Number (points w), Text (js '' Pkt'')]],
       Element ''div'' [cls ''wine-meta'']
         [Text (region w), Text (js '' '' @ [0x00B7] @ js '' ''), Text (grape w)],
       Element ''div'' [cls ''wine-description''] [Text (description w)],
       Element ''div'' [cls ''wine-footer'']
         [Element ''span'' [cls ''wine-price''] [Text (price w)],
          Element ''button'' [cls ''wine-button''] [Text (js ''Mehr Details'')]]]"

fun senderName :: "sender \<Rightarrow> jsstring" where
  "senderName User = js ''user''"
| "senderName Bot = js ''bot''"

definition Message :: "message \<Rightarrow> node" where
  "Message m =
    Element ''div'' [(''className'', js ''message '' @ senderName (sender m))]
      ((if sender m = Bot
        then [Element ''div'' [cls ''message-label''] [Text (js ''Sommelier'')]]
        else []) @
       [Element ''div'' [cls ''message-bubble''] [Text (text m)]] @
       (case wines m of
          None \<Rightarrow> []
        | Some ws \<Rightarrow> [Element ''div'' [cls ''wine-cards''] (map WineCard ws)]))"

text \<open>The quick actions, each an icon and a label.\<close>

definition quickActions :: "(jsstring \<times> jsstring) list" where
  "quickActions =
    [([0xD83C, 0xDF77], js ''Rotwein''),
     ([0xD83E, 0xDD42], js ''Champagner''),
     ([0xD83C, 0xDF7D, 0xFE0F], js ''Speisebegleitung''),
     ([0xD83D, 0xDCDA], js ''Weinwissen'')]"

definition ChatView :: "message list \<Rightarrow> jsstring \<Rightarrow> node list" where
  "ChatView msgs inp =
    [Element ''div'' [cls ''chat-container''] (map Message msgs),
     Element ''div'' [cls ''input-area'']
       [Element ''div'' [cls ''input-container'']
          [Element ''input''
             [(''type'', js ''text''), cls ''input-field'',
              (''placeholder'', js ''Fragen Sie Ihren Sommelier...''),
              (''value'', inp)] [],
           Element ''button'' [cls ''send-button''] [ArrowIcon]]],
     Element ''div'' [cls ''quick-actions'']
       (map (\<lambda>(icon, label).
               Element ''button'' [cls ''quick-chip'']
                 [Text icon, Text (js '' ''), Text label])
          quickActions)]"

text \<open>The taste profile, each entry a label and a value.\<close>

definition tasteProfile :: "(jsstring \<times> int) list" where
  "tasteProfile =
    [(js ''S'' @ [0x00FC, 0x00DF] @ js ''e'', 25),
     (js ''S'' @ [0x00E4] @ js ''ure'', 70),
     (js ''Tannin'', 60),
     (js ''K'' @ [0x00F6] @ js ''rper'', 55),
     (js ''Alkohol'', 45)]"

definition preferences :: "jsstring list" where
  "preferences =
    [js ''Bordeaux'', js ''Burgund'', js ''Bio-Weine'', js ''unter 50'' @ [0x20AC],
     js ''Barrique'']"

definition ProfileView :: "node list" where
  "ProfileView =
    [Element ''div'' [cls ''profile-container'']
       [Element ''div'' [cls ''profile-section'']
          (Element ''h3'' [cls ''profile-section-title''] [Text (js ''Geschmacksprofil'')] #
           map (\<lambda>(label, val).
                  Element ''div'' [cls ''taste-item'']
                    [Element ''div'' [cls ''taste-label'']
                       [Element ''span'' [] [Text label],
                        Element ''span'' [] [Number val, Text (js ''%'')]],
                     Element ''div'' [cls ''taste-bar'']
                       [Element ''div''
                          [cls ''taste-fill'',
                           (''style.width'', numberToString val @ js ''%'')] []]])
             tasteProfile),
        Element ''div'' [cls ''profile-section'']
          [Element ''h3'' [cls ''profile-section-title'']
             [Text (js ''Pr'' @ [0x00E4] @ js ''ferenzen'')],
           Element ''div'' [cls ''preference-tags'']
             (map (\<lambda>pref. Element ''span'' [cls ''preference-tag''] [Text pref])
                preferences)]]]"

record slot =
  filled :: bool

definition slots :: "slot list" where
  "slots =
    [\<lparr>filled = True\<rparr>, \<lparr>filled = True\<rparr>, \<lparr>filled = False\<rparr>,
     \<lparr>filled = True\<rparr>, \<lparr>filled = False\<rparr>, \<lparr>filled = True\<rparr>,
     \<lparr>filled = False\<rparr>, \<lparr>filled = True\<rparr>, \<lparr>filled = False\<rparr>]"

text \<open>
  The two counts of \<open>CellarView\<close>, as functions of the slot list: the source computes
  each with its own \<open>filter\<close>.
\<close>

definition filledCount :: "slot list \<Rightarrow> nat" where
  "filledCount ss = length (filter (\<lambda>s. filled s) ss)"

definition emptyCount :: "slot list \<Rightarrow> nat" where
  "emptyCount ss = length (filter (\<lambda>s. \<not> filled s) ss)"

definition CellarView :: "node list" where
  "CellarView =
    [Element ''div'' [cls ''cellar-container'']
       [Element ''div'' [cls ''profile-section'']
          [Element ''h3'' [cls ''profile-section-title''] [Text (js ''Mein Weinkeller'')],
           Element ''div'' [cls ''cellar-grid'']
             (map (\<lambda>slot.
                     Element ''div''
                       [(''className'',
                         js ''cellar-slot '' @
                         (if filled slot then js ''filled'' else js ''empty''))]
                       [if filled slot then WineGlassIcon else PlusIcon])
                slots),
           Element ''div'' [cls ''cellar-summary'']
             [Number (int (filledCount slots)),
              Text (js '' Flaschen im Keller '' @ [0x00B7] @ js '' ''),
              Number (int (emptyCount slots)),
              Text (js '' Pl'' @ [0x00E4] @ js ''tze frei'')]]]]"

text \<open>The tab buttons, each an identifier and a label.\<close>

definition tabs :: "(tab \<times> jsstring) list" where
  "tabs = [(Chat, js ''Chat''), (Profile, js ''Profil''), (Cellar, js ''Keller'')]"

definition header :: node where
  "header =
    Element ''header'' [cls ''header'']
      [Element ''div'' [cls ''header-icon''] [WineGlassIcon],
       Element ''h1'' [cls ''header-title''] [Text (js ''SOMMELIER'')],
       Element ''p'' [cls ''header-subtitle''] [Text (js ''Ihr Weinberater'')]]"

definition nav :: "app \<Rightarrow> node" where
  "nav st =
    Element ''nav'' [cls ''tabs'']
      (map (\<lambda>(id, label).
              Element ''button''
                [(''className'',
                  js ''tab '' @ (if activeTab st = id then js ''active'' else []))]
                [Text label])
         tabs)"

text \<open>
  The three conditional expressions under the comment \<open>Views\<close>, in the order of the
  source.
\<close>

definition views :: "app \<Rightarrow> node list list" where
  "views st =
    [if activeTab st = Chat then ChatView (messages st) (inputValue st) else [],
     if activeTab st = Profile then ProfileView else [],
     if activeTab st = Cellar then CellarView else []]"

definition App :: "app \<Rightarrow> node" where
  "App st = Element ''div'' [cls ''app''] ([header, nav st] @ concat (views st))"

text \<open>
  Reading a rendered tree as a browser does: the classes of an element are the words of
  its \<open>className\<close>, and \<open>select c\<close> lists, in document order, the elements of a
  tree that have the class \<open>c\<close>.
\<close>

fun tokens :: "jsstring \<Rightarrow> jsstring \<Rightarrow> jsstring list" where
  "tokens acc [] = (if acc = [] then [] else [acc])"
| "tokens acc (c # cs) =
    (if c = 0x0020 then (if acc = [] then [] else [acc]) @ tokens [] cs
     else tokens (acc @ [c]) cs)"

definition classList :: "(string \<times> jsstring) list \<Rightarrow> jsstring list" where
  "classList attrs = (case map_of attrs ''className'' of None \<Rightarrow> [] | Some v \<Rightarrow> tokens [] v)"

fun select :: "jsstring \<Rightarrow> node \<Rightarrow> node list" where
  "select c (Element tag attrs kids) =
    (if c \<in> set (classList attrs) then [Element tag attrs kids] else []) @
    concat (map (select c) kids)"
| "select c (Text s) = []"
| "select c (Number n) = []"

text \<open>
  A bound on the pending timers: none is due later than a timer registered now would be.
\<close>

definition duesBounded :: "app \<Rightarrow> bool" where
  "duesBounded st \<longleftrightarrow> (\<forall>tm\<in>set (timers st). due tm \<le> clock st + 1000)"

text \<open>A draft without whitespace at its ends, and the states used as examples below.\<close>

definition weisswein :: jsstring where
  "weisswein = js ''Empfehlen Sie mir einen Wei'' @ [0x00DF] @ js ''wein''"

definition typed :: "string \<Rightarrow> app" where
  "typed s = setInputValue (js s) initial"

text \<open>
  Two sends in quick succession: the second draft is sent 300 ms after the first, before
  the first reply is due.
\<close>

definition rapid :: "event list" where
  "rapid = [Change (js ''a''), ClickSend, Elapse 300, Change (js ''b''), ClickSend]"

section \<open>Basic facts about the transitions\<close>

declare digits.simps [simp del]

lemmas eval_defs = run_def setInputValue_def setActiveTab_def handleSend_def
  handleKeyPress_def elapse_def timerCallback_def trim_def isWhiteSpace_def js_def
  initial_def userMessage_def typed_def rapid_def submits_def Let_def

lemma handleSend_nonempty:
  assumes "trim (inputValue st) \<noteq> []"
  shows "handleSend st =
    st\<lparr>messages := messages st @ [userMessage (inputValue st)],
       inputValue := [],
       timers := timers st @
         [\<lparr>due = clock st + 1000, captured = messages st @ [userMessage (inputValue st)]\<rparr>]\<rparr>"
  using assms by (simp add: handleSend_def Let_def)

lemma submits_step:
  assumes "submits st ev"
  shows "step st ev = handleSend st"
  using assms by (auto simp: submits_def handleKeyPress_def)

lemma callbacks_fields:
  "activeTab (foldl (\<lambda>s tm. timerCallback (captured tm) s) s0 tms) = activeTab s0"
  "inputValue (foldl (\<lambda>s tm. timerCallback (captured tm) s) s0 tms) = inputValue s0"
  "timers (foldl (\<lambda>s tm. timerCallback (captured tm) s) s0 tms) = timers s0"
  "clock (foldl (\<lambda>s tm. timerCallback (captured tm) s) s0 tms) = clock s0"
  by (induction tms arbitrary: s0) (simp_all add: timerCallback_def)

lemma callbacks_messages:
  "messages (foldl (\<lambda>s tm. timerCallback (captured tm) s) s0 tms) =
     (if tms = [] then messages s0 else captured (last tms) @ [botReply])"
  by (induction tms arbitrary: s0) (simp_all add: timerCallback_def)

lemma elapse_fields:
  "activeTab (elapse d st) = activeTab st"
  "inputValue (elapse d st) = inputValue st"
  "clock (elapse d st) = clock st + d"
  "timers (elapse d st) = filter (\<lambda>tm. \<not> due tm \<le> clock st + d) (timers st)"
  by (simp_all add: elapse_def Let_def callbacks_fields)

lemma elapse_messages:
  "messages (elapse d st) =
     (let ready = sort_key due (filter (\<lambda>tm. due tm \<le> clock st + d) (timers st))
      in if ready = [] then messages st else captured (last ready) @ [botReply])"
  by (simp add: elapse_def Let_def callbacks_messages)

text \<open>
  An event that is neither a send nor the passing of time keeps the messages, the timers
  and the clock.
\<close>

lemma quiet_step_same:
  assumes "\<not> submits s ev" and "\<And>d. ev \<noteq> Elapse d"
  shows "messages (step s ev) = messages s \<and> timers (step s ev) = timers s
         \<and> clock (step s ev) = clock s"
proof (cases ev)
  case (Elapse d)
  with assms(2) show ?thesis by blast
qed (use assms(1) in \<open>auto simp: submits_def setActiveTab_def setInputValue_def
       handleSend_def handleKeyPress_def\<close>)

lemma quiet_done:
  assumes "timers s = []" "noSend s evs"
  shows "messages (run evs s) = messages s"
  using assms
proof (induction evs arbitrary: s)
  case Nil
  then show ?case by (simp add: run_def)
next
  case (Cons ev evs)
  from Cons.prems have q: "\<not> submits s ev" and n: "noSend (step s ev) evs" by simp_all
  have "timers (step s ev) = [] \<and> messages (step s ev) = messages s"
  proof (cases "\<exists>d. ev = Elapse d")
    case True
    with Cons.prems(1) show ?thesis by (auto simp: elapse_fields elapse_messages)
  next
    case False
    with quiet_step_same [OF q] Cons.prems(1) show ?thesis by simp
  qed
  then have t: "timers (step s ev) = []" and m: "messages (step s ev) = messages s"
    by simp_all
  have "messages (run evs (step s ev)) = messages (step s ev)"
    by (rule Cons.IH [OF t n])
  with m show ?case by (simp add: run_def)
qed

subsection \<open>The order in which due timers run\<close>

lemma last_insort_key:
  assumes "zs \<noteq> []" and "f y \<le> f (last zs)"
  shows "last (insort_key f y zs) = last zs"
  using assms by (induction zs) auto

lemma insort_key_nonempty: "insort_key f y zs \<noteq> []"
  by (cases zs) simp_all

lemma last_sort_key_snoc:
  assumes "\<And>y. y \<in> set xs \<Longrightarrow> f y \<le> f x"
  shows "last (sort_key f (xs @ [x])) = x"
proof -
  have "foldr (insort_key f) xs [x] \<noteq> [] \<and> last (foldr (insort_key f) xs [x]) = x"
    using assms
  proof (induction xs)
    case Nil
    then show ?case by simp
  next
    case (Cons y ys)
    then have ih: "foldr (insort_key f) ys [x] \<noteq> []"
      "last (foldr (insort_key f) ys [x]) = x" by simp_all
    have "f y \<le> f x" using Cons.prems by simp
    with ih show ?case by (simp add: insort_key_nonempty last_insort_key)
  qed
  then show ?thesis by (simp add: sort_key_def)
qed

text \<open>
  The newest timer is registered last and is due last; once it has run, its reply is the
  last thing written to \<open>messages\<close>.
\<close>

lemma newest_timer_last:
  assumes "timers s = olds @ [\<lparr>due = T, captured = N\<rparr>]"
    and "\<forall>tm\<in>set olds. due tm \<le> T"
    and "clock s < T"
    and "noSend s evs"
    and "T \<le> clock s + elapsed evs"
  shows "messages (run evs s) = N @ [botReply]"
  using assms
proof (induction evs arbitrary: s olds)
  case Nil
  then show ?case by simp
next
  case (Cons ev evs)
  from Cons.prems(4) have q: "\<not> submits s ev" and n: "noSend (step s ev) evs" by simp_all
  show ?case
  proof (cases "\<exists>d. ev = Elapse d")
    case False
    then have ne: "\<And>d. ev \<noteq> Elapse d" by blast
    from quiet_step_same [OF q ne]
    have m: "timers (step s ev) = timers s" and c: "clock (step s ev) = clock s"
      by simp_all
    have e: "elapsed (ev # evs) = elapsed evs"
      using ne by (cases ev) auto
    have "messages (run evs (step s ev)) = N @ [botReply]"
      using Cons.IH [of "step s ev" olds] Cons.prems(1,2,3,5) m c e n by simp
    then show ?thesis by (simp add: run_def)
  next
    case True
    then obtain d where ev: "ev = Elapse d" by blast
    show ?thesis
    proof (cases "T \<le> clock s + d")
      case True
      let ?tm = "\<lparr>due = T, captured = N\<rparr>"
      have all: "filter (\<lambda>tm. due tm \<le> clock s + d) (timers s) = olds @ [?tm]"
        using Cons.prems(1,2) True by (auto simp: filter_id_conv)
      have none: "filter (\<lambda>tm. \<not> due tm \<le> clock s + d) (timers s) = []"
        using Cons.prems(1,2) True by (auto simp: filter_empty_conv)
      have l: "last (sort_key due (olds @ [?tm])) = ?tm"
        using Cons.prems(2) by (intro last_sort_key_snoc) simp
      have r: "sort_key due (olds @ [?tm]) \<noteq> []"
        by (metis length_sort length_0_conv snoc_eq_iff_butlast)
      have m: "messages (step s ev) = N @ [botReply]"
        using l r by (simp add: ev elapse_messages all Let_def)
      have t: "timers (step s ev) = []"
        by (simp add: ev elapse_fields none)
      from quiet_done [OF t n] m show ?thesis by (simp add: run_def)
    next
      case False
      then have lt: "clock s + d < T" by simp
      let ?olds = "filter (\<lambda>tm. \<not> due tm \<le> clock s + d) olds"
      have t: "timers (step s ev) = ?olds @ [\<lparr>due = T, captured = N\<rparr>]"
        using Cons.prems(1) lt by (simp add: ev elapse_fields)
      have o: "\<forall>tm\<in>set ?olds. due tm \<le> T"
        using Cons.prems(2) by simp
      have c: "clock (step s ev) < T"
        using lt by (simp add: ev elapse_fields)
      have e: "T \<le> clock (step s ev) + elapsed evs"
        using Cons.prems(5) by (simp add: ev elapse_fields)
      from Cons.IH [OF t o c n e] show ?thesis by (simp add: run_def)
    qed
  qed
qed

lemma reply_not_before_delay:
  assumes "timers s = [\<lparr>due = T, captured = N\<rparr>]" "messages s = N"
    "noSend s evs" "clock s + elapsed evs < T"
  shows "messages (run evs s) = N"
  using assms
proof (induction evs arbitrary: s)
  case Nil
  then show ?case by (simp add: run_def)
next
  case (Cons ev evs)
  from Cons.prems(3) have q: "\<not> submits s ev" and n: "noSend (step s ev) evs" by simp_all
  have "timers (step s ev) = timers s \<and> messages (step s ev) = N
        \<and> clock (step s ev) + elapsed evs = clock s + elapsed (ev # evs)"
  proof (cases "\<exists>d. ev = Elapse d")
    case True
    then obtain d where ev: "ev = Elapse d" by blast
    with Cons.prems(1,2,4) show ?thesis
      by (simp add: elapse_fields elapse_messages)
  next
    case False
    then have ne: "\<And>d. ev \<noteq> Elapse d" by blast
    have "elapsed (ev # evs) = elapsed evs" using ne by (cases ev) auto
    with quiet_step_same [OF q ne] Cons.prems(2) show ?thesis by simp
  qed
  with Cons.IH [of "step s ev"] Cons.prems(1,4) n show ?case by (simp add: run_def)
qed

lemma send_then_quiet:
  assumes "duesBounded st"
    and "trim (inputValue st) \<noteq> []"
    and "noSend (handleSend st) evs"
    and "1000 \<le> elapsed evs"
  shows "messages (run evs (handleSend st)) =
           messages st @ [userMessage (inputValue st), botReply]"
proof -
  let ?N = "messages st @ [userMessage (inputValue st)]"
  have t: "timers (handleSend st) = timers st @ [\<lparr>due = clock st + 1000, captured = ?N\<rparr>]"
    and c: "clock (handleSend st) = clock st"
    by (simp_all add: handleSend_nonempty [OF assms(2)])
  have b: "\<forall>tm\<in>set (timers st). due tm \<le> clock st + 1000"
    using assms(1) by (simp add: duesBounded_def)
  have l: "clock (handleSend st) < clock st + 1000"
    and e: "clock st + 1000 \<le> clock (handleSend st) + elapsed evs"
    using assms(4) by (simp_all add: c)
  from newest_timer_last [OF t b l assms(3) e] show ?thesis by simp
qed

text \<open>The bound on the pending timers holds in every state a session reaches.\<close>

lemma duesBounded_step:
  assumes "duesBounded st"
  shows "duesBounded (step st ev)"
  using assms
  by (cases ev)
     (auto simp: duesBounded_def setActiveTab_def setInputValue_def handleSend_def
        handleKeyPress_def elapse_fields Let_def)

lemma duesBounded_run: "duesBounded (run evs initial)"
proof (induction evs rule: rev_induct)
  case Nil
  then show ?case by (simp add: run_def duesBounded_def initial_def)
next
  case (snoc ev evs)
  then show ?case by (simp add: run_def duesBounded_step)
qed

section \<open>Sending a draft\<close>

text \<open>
  The stored text is the input as typed: for the draft \<open>" a "\<close>, whose trimmed form
  \<open>"a"\<close> is not empty, the appended message holds \<open>" a "\<close>, which is not the
  trimmed draft.
\<close>

theorem handleSend_text_untrimmed:
  "trim (js '' a '') \<noteq> []
   \<and> messages (handleSend (typed '' a '')) =
       seedMessages @ [\<lparr>sender = User, text = js '' a '', wines = None\<rparr>]
   \<and> text (last (messages (handleSend (typed '' a '')))) \<noteq> trim (js '' a '')"
  by (simp add: eval_defs)

text \<open>
  C1 (as the code has it): when the trimmed input is not empty, \<open>handleSend\<close>, also when
  reached through the Enter key, appends exactly one message, from the user, whose text
  is the input as typed, whitespace at its ends included, and sets the input to the empty
  string. The text is the trimmed draft when the draft has no whitespace at its ends.
\<close>

theorem handleSend_appends_draft:
  assumes "trim (inputValue st) \<noteq> []"
  shows "messages (handleSend st) =
           messages st @ [\<lparr>sender = User, text = inputValue st, wines = None\<rparr>]
         \<and> inputValue (handleSend st) = []
         \<and> handleKeyPress (js ''Enter'') st = handleSend st
         \<and> (trim (inputValue st) = inputValue st \<longrightarrow>
              text (last (messages (handleSend st))) = trim (inputValue st))"
  using assms
  by (simp add: handleSend_nonempty handleKeyPress_def userMessage_def)

theorem handleSend_appends_draft_witness:
  "trim (inputValue (setInputValue weisswein initial)) \<noteq> []
   \<and> trim (inputValue (setInputValue weisswein initial)) =
       inputValue (setInputValue weisswein initial)
   \<and> messages (handleSend (setInputValue weisswein initial)) =
       seedMessages @ [\<lparr>sender = User, text = weisswein, wines = None\<rparr>]
   \<and> inputValue (handleSend (setInputValue weisswein initial)) = []
   \<and> text (last (messages (handleSend (setInputValue weisswein initial)))) =
       trim weisswein"
proof -
  let ?st = "setInputValue weisswein initial"
  have t: "trim weisswein = weisswein"
    by (simp add: weisswein_def trim_def isWhiteSpace_def js_def)
  have i: "inputValue ?st = weisswein"
    by (simp add: setInputValue_def)
  have m: "messages ?st = seedMessages"
    by (simp add: setInputValue_def initial_def)
  have n: "weisswein \<noteq> []"
    by (simp add: weisswein_def js_def)
  have h: "trim (inputValue ?st) \<noteq> []"
    by (simp add: i t n)
  show ?thesis
    using h handleSend_appends_draft [OF h]
    by (simp add: i t m)
qed

section \<open>Empty drafts\<close>

text \<open>
  C4: when the trimmed input is empty, \<open>handleSend\<close> changes nothing: the messages, the
  input and the pending timers are those of before; the Enter key does nothing either.
\<close>

theorem handleSend_empty_noop:
  assumes "trim (inputValue st) = []"
  shows "handleSend st = st
         \<and> messages (handleSend st) = messages st
         \<and> inputValue (handleSend st) = inputValue st
         \<and> timers (handleSend st) = timers st
         \<and> handleKeyPress key st = st"
  using assms by (simp add: handleSend_def handleKeyPress_def)

theorem handleSend_empty_noop_witness:
  "trim (inputValue (typed ''   '')) = []
   \<and> handleSend (typed ''   '') = typed ''   ''
   \<and> inputValue (handleSend (typed ''   '')) = js ''   ''
   \<and> messages (handleSend (typed ''   '')) = seedMessages
   \<and> timers (handleSend (typed ''   '')) = []"
proof -
  have h: "trim (inputValue (typed ''   '')) = []"
    by (simp add: typed_def setInputValue_def trim_def js_def isWhiteSpace_def)
  show ?thesis
    using h handleSend_empty_noop [OF h]
    by (simp add: typed_def setInputValue_def initial_def)
qed

section \<open>The reply to a single send\<close>

text \<open>
  C5: after an event that submits the draft, followed by events none of which submits
  again, the messages are, once 1000 ms have passed, those of before followed by the
  user's message and then one reply, which is from the bot and has no wines. When no
  other reply was pending, the messages are those of before followed by the user's
  message alone until the 1000 ms have passed.
\<close>

theorem single_send_reply:
  assumes "duesBounded st"
    and "submits st ev"
    and "noSend (step st ev) evs"
  shows "(1000 \<le> elapsed evs \<longrightarrow>
            messages (run (ev # evs) st) =
              messages st @ [userMessage (inputValue st), botReply])
         \<and> (timers st = [] \<and> elapsed evs < 1000 \<longrightarrow>
              messages (run (ev # evs) st) = messages st @ [userMessage (inputValue st)])
         \<and> sender botReply = Bot \<and> wines botReply = None"
proof -
  from assms(2) have ne: "trim (inputValue st) \<noteq> []" by (simp add: submits_def)
  have s: "step st ev = handleSend st" by (rule submits_step [OF assms(2)])
  have r: "run (ev # evs) st = run evs (handleSend st)" by (simp add: run_def s)
  from assms(3) have n: "noSend (handleSend st) evs" by (simp add: s)
  have a: "messages (run (ev # evs) st) =
             messages st @ [userMessage (inputValue st), botReply]"
    if "1000 \<le> elapsed evs"
    using send_then_quiet [OF assms(1) ne n that] by (simp add: r)
  have b: "messages (run (ev # evs) st) = messages st @ [userMessage (inputValue st)]"
    if "timers st = []" and "elapsed evs < 1000"
  proof -
    let ?N = "messages st @ [userMessage (inputValue st)]"
    have t: "timers (handleSend st) = [\<lparr>due = clock st + 1000, captured = ?N\<rparr>]"
      and m: "messages (handleSend st) = ?N"
      and c: "clock (handleSend st) + elapsed evs < clock st + 1000"
      using that by (simp_all add: handleSend_nonempty [OF ne])
    from reply_not_before_delay [OF t m n c] show ?thesis by (simp add: r)
  qed
  from a b show ?thesis by (simp add: botReply_def)
qed

theorem single_send_reply_witness:
  "duesBounded (typed ''Rotwein'')
   \<and> submits (typed ''Rotwein'') ClickSend
   \<and> noSend (step (typed ''Rotwein'') ClickSend)
        [ClickTab Profile, Elapse 400, ClickSend, Elapse 600]
   \<and> 1000 \<le> elapsed [ClickTab Profile, Elapse 400, ClickSend, Elapse 600]
   \<and> messages (run [ClickSend, ClickTab Profile, Elapse 400, ClickSend, Elapse 600]
        (typed ''Rotwein'')) =
      seedMessages @ [userMessage (js ''Rotwein''), botReply]
   \<and> submits (typed ''Rotwein'') (KeyPress (js ''Enter''))
   \<and> noSend (step (typed ''Rotwein'') (KeyPress (js ''Enter''))) [Elapse 999]
   \<and> timers (typed ''Rotwein'') = []
   \<and> elapsed [Elapse 999] < 1000
   \<and> messages (run [KeyPress (js ''Enter''), Elapse 999] (typed ''Rotwein'')) =
      seedMessages @ [userMessage (js ''Rotwein'')]"
proof -
  let ?st = "typed ''Rotwein''"
  let ?evs = "[ClickTab Profile, Elapse 400, ClickSend, Elapse 600]"
  have a: "duesBounded ?st"
    by (simp add: duesBounded_def typed_def setInputValue_def initial_def)
  have b: "submits ?st ClickSend" and b': "submits ?st (KeyPress (js ''Enter''))"
    by (simp_all add: eval_defs)
  have c: "noSend (step ?st ClickSend) ?evs"
    by (simp add: eval_defs)
  have c': "noSend (step ?st (KeyPress (js ''Enter''))) [Elapse 999]"
    by (simp add: eval_defs)
  have i: "inputValue ?st = js ''Rotwein''" "messages ?st = seedMessages" "timers ?st = []"
    by (simp_all add: typed_def setInputValue_def initial_def)
  show ?thesis
    using a b b' c c' single_send_reply [OF a b c] single_send_reply [OF a b' c']
    by (simp add: i)
qed

section \<open>Two sends in quick succession\<close>

text \<open>
  Whenever a second draft is sent before the reply to the first is due, the first
  callback overwrites \<open>messages\<close> with the array of its closure, which lacks the second
  message, and the second callback overwrites that in turn: one reply remains.
\<close>

lemma two_rapid_sends:
  assumes "timers st = []" and "trim a \<noteq> []" and "trim b \<noteq> []"
    and "e < 1000" and "1000 \<le> f"
  shows "messages (run [Change a, ClickSend, Elapse e, Change b, ClickSend, Elapse f] st) =
           messages st @ [userMessage a, userMessage b, botReply]"
  using assms
  by (simp add: run_def setInputValue_def handleSend_def elapse_def timerCallback_def
      Let_def)

text \<open>
  C2, evaluated: from the first render the drafts \<open>"a"\<close> and \<open>"b"\<close> are sent 300 ms
  apart, all in the chat view. Before either timer runs, the messages end with the two
  user messages and two timers are pending, due at 1000 and 1300. After both have run
  and no timer is left, the messages end with the two user messages and a single reply:
  the new part holds one message from the bot, not two.
\<close>

theorem rapid_sends_one_reply:
  "feasible initial (rapid @ [Elapse 700, Elapse 300])
   \<and> messages (run rapid initial) =
       seedMessages @ [userMessage (js ''a''), userMessage (js ''b'')]
   \<and> map due (timers (run rapid initial)) = [1000, 1300]
   \<and> messages (run (rapid @ [Elapse 700, Elapse 300]) initial) =
       seedMessages @ [userMessage (js ''a''), userMessage (js ''b''), botReply]
   \<and> timers (run (rapid @ [Elapse 700, Elapse 300]) initial) = []
   \<and> length (filter (\<lambda>m. sender m = Bot)
        (drop (length seedMessages)
           (messages (run (rapid @ [Elapse 700, Elapse 300]) initial)))) = 1"
  by (simp add: eval_defs) (simp add: seedMessages_def botReply_def)

section \<open>Growth of the message list\<close>

text \<open>
  Every event but the passing of time extends the messages, and so does a timer whose
  closure holds the messages as they are when it runs.
\<close>

lemma step_prefix:
  assumes "\<And>d. ev \<noteq> Elapse d"
  shows "prefix (messages st) (messages (step st ev))"
proof (cases ev)
  case (Elapse d)
  with assms show ?thesis by blast
qed (simp_all add: setActiveTab_def setInputValue_def handleSend_def handleKeyPress_def
       Let_def)

lemma elapse_prefix:
  assumes "\<And>tm. tm \<in> set (timers st) \<Longrightarrow> captured tm = messages st"
  shows "prefix (messages st) (messages (elapse d st))"
proof -
  let ?ready = "sort_key due (filter (\<lambda>tm. due tm \<le> clock st + d) (timers st))"
  show ?thesis
  proof (cases "?ready = []")
    case True
    then show ?thesis by (simp add: elapse_messages Let_def)
  next
    case False
    then have "last ?ready \<in> set ?ready" by (rule last_in_set)
    then have "last ?ready \<in> set (timers st)" by simp
    then have "captured (last ?ready) = messages st" by (rule assms)
    with False show ?thesis by (simp add: elapse_messages Let_def)
  qed
qed

text \<open>
  C3, evaluated: after the two sends above the messages end with both user messages.
  When the first timer runs, 700 ms later, the messages become the seed, the first user
  message and the reply: the second user message is gone, and the list of before is not
  a prefix of the new one.
\<close>

theorem timer_callback_drops_message:
  "feasible initial (rapid @ [Elapse 700])
   \<and> messages (run rapid initial) =
       seedMessages @ [userMessage (js ''a''), userMessage (js ''b'')]
   \<and> messages (step (run rapid initial) (Elapse 700)) =
       seedMessages @ [userMessage (js ''a''), botReply]
   \<and> \<not> prefix (messages (run rapid initial))
         (messages (step (run rapid initial) (Elapse 700)))"
  by (simp add: eval_defs seedMessages_def) (simp add: botReply_def)

section \<open>The reply is a constant\<close>

lemma reply_after_send:
  assumes "trim (inputValue st) \<noteq> []" and "1000 \<le> d"
  shows "last (messages (elapse d (handleSend st))) = botReply"
proof -
  let ?tm = "\<lparr>due = clock st + 1000, captured = messages st @ [userMessage (inputValue st)]\<rparr>"
  let ?s = "handleSend st"
  let ?ready = "sort_key due (filter (\<lambda>tm. due tm \<le> clock ?s + d) (timers ?s))"
  have "?tm \<in> set (timers ?s)" and "clock ?s = clock st"
    by (simp_all add: handleSend_nonempty [OF assms(1)])
  with assms(2) have "?tm \<in> set ?ready" by simp
  then have "?ready \<noteq> []" by (metis empty_iff list.set(1))
  then show ?thesis by (simp add: elapse_messages Let_def)
qed

text \<open>
  C10: for any two states whose inputs are not empty once trimmed, whatever their inputs
  and their messages, the last message once the reply to a send has arrived is the same
  in both, the constant \<open>botReply\<close>; and any two timer callbacks append the same
  message, whatever array their closures hold.
\<close>

theorem bot_reply_constant:
  assumes "trim (inputValue st1) \<noteq> []" and "trim (inputValue st2) \<noteq> []"
    and "1000 \<le> d1" and "1000 \<le> d2"
  shows "last (messages (elapse d1 (handleSend st1))) =
           last (messages (elapse d2 (handleSend st2)))
         \<and> last (messages (elapse d1 (handleSend st1))) = botReply
         \<and> last (messages (timerCallback n1 s1)) = last (messages (timerCallback n2 s2))"
  using reply_after_send [OF assms(1,3)] reply_after_send [OF assms(2,4)]
  by (simp add: timerCallback_def)

theorem bot_reply_constant_witness:
  "trim (inputValue (typed ''Rotwein'')) \<noteq> []
   \<and> trim (inputValue (setInputValue (js '' Sekt?'')
        (elapse 2000 (handleSend (typed ''Rotwein''))))) \<noteq> []
   \<and> last (messages (elapse 1000 (handleSend (typed ''Rotwein'')))) =
      last (messages (elapse 1500 (handleSend (setInputValue (js '' Sekt?'')
        (elapse 2000 (handleSend (typed ''Rotwein'')))))))
   \<and> last (messages (elapse 1000 (handleSend (typed ''Rotwein'')))) = botReply"
proof -
  let ?st1 = "typed ''Rotwein''"
  let ?st2 = "setInputValue (js '' Sekt?'') (elapse 2000 (handleSend ?st1))"
  have a: "trim (inputValue ?st1) \<noteq> []"
    by (simp add: typed_def setInputValue_def trim_def isWhiteSpace_def js_def)
  have b: "trim (inputValue ?st2) \<noteq> []"
    by (simp add: setInputValue_def trim_def isWhiteSpace_def js_def)
  have c: "(1000::nat) \<le> 1000" and d: "(1000::nat) \<le> 1500" by simp_all
  show ?thesis
    using a b bot_reply_constant [OF a b c d, of "[]" initial "[]" initial] by blast
qed

section \<open>The first render\<close>

text \<open>
  C6: at the start there are three messages, from the bot, the user and the bot; the
  first two have no wines and the third has two; the chat tab is active, the input is
  empty and no timer is pending.
\<close>

theorem initial_state:
  "length (messages initial) = 3
   \<and> map sender (messages initial) = [Bot, User, Bot]
   \<and> map (map_option length \<circ> wines) (messages initial) = [None, None, Some 2]
   \<and> activeTab initial = Chat
   \<and> inputValue initial = []
   \<and> timers initial = []"
  by (simp add: initial_def seedMessages_def)

section \<open>The cellar summary\<close>

text \<open>
  C7: for every slot list, \<open>filledCount\<close> is the number of positions whose slot is
  filled, \<open>emptyCount\<close> is the length less \<open>filledCount\<close>, and the two add up to the
  length; the nine slots of \<open>CellarView\<close> are filled as listed and give 5 and 4.
\<close>

theorem cellar_counts:
  "filledCount ss = card {i. i < length ss \<and> filled (ss ! i)}
   \<and> emptyCount ss = length ss - filledCount ss
   \<and> filledCount ss + emptyCount ss = length ss
   \<and> map filled slots = [True, True, False, True, False, True, False, True, False]
   \<and> filledCount slots = 5
   \<and> emptyCount slots = 4"
proof -
  have a: "filledCount ss = card {i. i < length ss \<and> filled (ss ! i)}"
    by (simp add: filledCount_def length_filter_conv_card)
  have b: "filledCount ss + emptyCount ss = length ss"
    using sum_length_filter_compl [of "\<lambda>s. filled s" ss]
    by (simp add: filledCount_def emptyCount_def)
  have c: "filledCount slots = 5" "emptyCount slots = 4"
    by (simp_all add: filledCount_def emptyCount_def slots_def)
  have d: "map filled slots = [True, True, False, True, False, True, False, True, False]"
    by (simp add: slots_def)
  from a b c d show ?thesis by simp
qed

section \<open>Selecting a tab\<close>

lemma run_snoc: "run (evs @ [ev]) st = step (run evs st) ev"
  by (simp add: run_def)

text \<open>
  C8: after any non-empty sequence of clicks on tab buttons the active tab is the last
  one clicked; selecting a tab twice is selecting it once, and selecting the active tab
  changes nothing.
\<close>

theorem selectTab_last:
  assumes "ts \<noteq> []"
  shows "activeTab (run (map ClickTab ts) st) = last ts
         \<and> setActiveTab t (setActiveTab t st) = setActiveTab t st
         \<and> setActiveTab (activeTab st) st = st"
proof -
  from assms have "activeTab (run (map ClickTab ts) st) = last ts"
  proof (induction ts rule: rev_induct)
    case Nil
    then show ?case by simp
  next
    case (snoc t ts)
    show ?case by (simp add: run_snoc setActiveTab_def)
  qed
  then show ?thesis by (simp add: setActiveTab_def)
qed

theorem selectTab_last_witness:
  "[Profile, Cellar, Cellar, Chat, Profile] \<noteq> []
   \<and> activeTab (run (map ClickTab [Profile, Cellar, Cellar, Chat, Profile]) initial) = Profile
   \<and> setActiveTab Cellar (setActiveTab Cellar initial) = setActiveTab Cellar initial
   \<and> setActiveTab Chat initial = initial"
proof -
  have h: "[Profile, Cellar, Cellar, Chat, Profile] \<noteq> []" by simp
  have c: "activeTab initial = Chat" by (simp add: initial_def)
  show ?thesis
    using selectTab_last [OF h, of initial Cellar] c by simp
qed

section \<open>Rendering\<close>

lemma select_icons:
  "select c WineGlassIcon = []"
  "select c ArrowIcon = []"
  "select c PlusIcon = []"
  by (simp_all add: WineGlassIcon_def ArrowIcon_def PlusIcon_def svgIcon_def classList_def)

lemma select_WineCard:
  "select (js ''message'') (WineCard w) = []"
  "select (js ''message-bubble'') (WineCard w) = []"
  "select (js ''wine-cards'') (WineCard w) = []"
  "select (js ''wine-card'') (WineCard w) = [WineCard w]"
  by (simp_all add: WineCard_def classList_def js_def)

lemma select_cards:
  "concat (map (select (js ''message'')) (map WineCard ws)) = []"
  "concat (map (select (js ''message-bubble'')) (map WineCard ws)) = []"
  "concat (map (select (js ''wine-cards'')) (map WineCard ws)) = []"
  "concat (map (select (js ''wine-card'')) (map WineCard ws)) = map WineCard ws"
  by (induction ws) (simp_all add: select_WineCard)

lemma classes_message:
  "classList [(''className'', js ''message '' @ js ''user'')] = [js ''message'', js ''user'']"
  "classList [(''className'', js ''message '' @ js ''bot'')] = [js ''message'', js ''bot'']"
  "classList [cls ''message-label''] = [js ''message-label'']"
  "classList [cls ''message-bubble''] = [js ''message-bubble'']"
  "classList [cls ''wine-cards''] = [js ''wine-cards'']"
  by (simp_all add: classList_def js_def)

lemma class_names_distinct:
  "js ''message'' \<noteq> js ''message-label''"
  "js ''message'' \<noteq> js ''message-bubble''"
  "js ''message'' \<noteq> js ''wine-cards''"
  "js ''message'' \<noteq> js ''user''"
  "js ''message'' \<noteq> js ''bot''"
  "js ''message-bubble'' \<noteq> js ''message''"
  "js ''message-bubble'' \<noteq> js ''message-label''"
  "js ''message-bubble'' \<noteq> js ''wine-cards''"
  "js ''message-bubble'' \<noteq> js ''user''"
  "js ''message-bubble'' \<noteq> js ''bot''"
  "js ''wine-cards'' \<noteq> js ''message''"
  "js ''wine-cards'' \<noteq> js ''message-label''"
  "js ''wine-cards'' \<noteq> js ''message-bubble''"
  "js ''wine-cards'' \<noteq> js ''user''"
  "js ''wine-cards'' \<noteq> js ''bot''"
  "js ''wine-card'' \<noteq> js ''message''"
  "js ''wine-card'' \<noteq> js ''message-label''"
  "js ''wine-card'' \<noteq> js ''message-bubble''"
  "js ''wine-card'' \<noteq> js ''wine-cards''"
  "js ''wine-card'' \<noteq> js ''user''"
  "js ''wine-card'' \<noteq> js ''bot''"
  by (simp_all add: js_def)

lemma select_Message:
  "select (js ''message'') (Message m) = [Message m]"
  by (cases "sender m"; cases "wines m")
     (simp_all add: Message_def classes_message class_names_distinct select_cards
        del: map_map)

lemma select_Message_bubble:
  "select (js ''message-bubble'') (Message m) =
     [Element ''div'' [cls ''message-bubble''] [Text (text m)]]"
  by (cases "sender m"; cases "wines m")
     (simp_all add: Message_def classes_message class_names_distinct select_cards
        del: map_map)

lemma select_Message_cards:
  "select (js ''wine-cards'') (Message m) =
     (case wines m of
        None \<Rightarrow> []
      | Some ws \<Rightarrow> [Element ''div'' [cls ''wine-cards''] (map WineCard ws)])"
  by (cases "sender m"; cases "wines m")
     (simp_all add: Message_def classes_message class_names_distinct select_cards
        del: map_map)

lemma select_Message_card:
  "select (js ''wine-card'') (Message m) =
     (case wines m of None \<Rightarrow> [] | Some ws \<Rightarrow> map WineCard ws)"
  by (cases "sender m"; cases "wines m")
     (simp_all add: Message_def classes_message class_names_distinct select_cards
        del: map_map)

lemma select_messages:
  "concat (map (select (js ''message'')) (map Message msgs)) = map Message msgs"
  by (induction msgs) (simp_all add: select_Message)

lemma select_header: "select (js ''message'') header = []"
  by (simp add: header_def select_icons) (simp add: classList_def js_def)

lemma select_nav: "select (js ''message'') (nav st) = []"
  by (cases "activeTab st") (simp_all add: nav_def tabs_def classList_def js_def)

lemma select_ChatView:
  "concat (map (select (js ''message'')) (ChatView msgs inp)) = map Message msgs"
proof -
  have a: "select (js ''message'') (Element ''div'' [cls ''chat-container''] (map Message msgs))
           = map Message msgs"
    using select_messages [of msgs] by (simp add: classList_def js_def del: map_map)
  show ?thesis
    unfolding ChatView_def
    by (simp add: a select_icons quickActions_def del: select.simps(1))
       (simp add: select_icons classList_def js_def)
qed

lemma select_ProfileView:
  "concat (map (select (js ''message'')) ProfileView) = []"
  by (simp add: ProfileView_def tasteProfile_def preferences_def classList_def)
     (simp add: js_def)

lemma select_CellarView:
  "concat (map (select (js ''message'')) CellarView) = []"
  by (simp add: CellarView_def slots_def select_icons classList_def)
     (simp add: js_def)

lemma select_App:
  "select (js ''message'') (App st) =
     (if activeTab st = Chat then map Message (messages st) else [])"
proof -
  have a: "js ''message'' \<notin> set (classList [cls ''app''])"
    by (simp add: classList_def js_def)
  show ?thesis
    by (cases "activeTab st")
       (simp_all add: App_def views_def a select_header select_nav select_ChatView
          select_ProfileView select_CellarView)
qed

lemma views_nonempty:
  "ChatView msgs inp \<noteq> []" "ProfileView \<noteq> []" "CellarView \<noteq> []"
  by (simp_all add: ChatView_def ProfileView_def CellarView_def)

text \<open>
  C9: the rendered tree depends on the active tab, the messages and the input only, not
  on the timers or the clock. Of the three views exactly one contributes nodes, the one
  of the active tab. In the chat view the elements of class \<open>message\<close> are the
  renderings of the messages, in list order, and nothing is of that class in the other
  views. The rendering of a message shows its text and, when it has wines, one card for
  each in a \<open>wine-cards\<close> element; without wines it has no such element and no card.
\<close>

theorem render_views:
  "App (st\<lparr>timers := tms, clock := c\<rparr>) = App st
   \<and> views st =
       (case activeTab st of
          Chat \<Rightarrow> [ChatView (messages st) (inputValue st), [], []]
        | Profile \<Rightarrow> [[], ProfileView, []]
        | Cellar \<Rightarrow> [[], [], CellarView])
   \<and> length (filter (\<lambda>v. v \<noteq> []) (views st)) = 1
   \<and> select (js ''message'') (App st) =
       (if activeTab st = Chat then map Message (messages st) else [])
   \<and> select (js ''message-bubble'') (Message m) =
       [Element ''div'' [cls ''message-bubble''] [Text (text m)]]
   \<and> select (js ''wine-cards'') (Message m) =
       (case wines m of
          None \<Rightarrow> []
        | Some ws \<Rightarrow> [Element ''div'' [cls ''wine-cards''] (map WineCard ws)])
   \<and> select (js ''wine-card'') (Message m) =
       (case wines m of None \<Rightarrow> [] | Some ws \<Rightarrow> map WineCard ws)"
proof -
  have a: "App (st\<lparr>timers := tms, clock := c\<rparr>) = App st"
    by (simp add: App_def nav_def views_def)
  have b: "views st =
       (case activeTab st of
          Chat \<Rightarrow> [ChatView (messages st) (inputValue st), [], []]
        | Profile \<Rightarrow> [[], ProfileView, []]
        | Cellar \<Rightarrow> [[], [], CellarView])"
    by (cases "activeTab st") (simp_all add: views_def)
  have d: "length (filter (\<lambda>v. v \<noteq> []) (views st)) = 1"
    by (cases "activeTab st") (simp_all add: views_def views_nonempty)
  from a b d select_App select_Message_bubble select_Message_cards select_Message_card
  show ?thesis by blast
qed

end
